theory Spec2Isabelle
  imports Main "HOL-Library.Multiset"
begin

section \<open>The templated-extraction notebook (example-doc-extraction-templated.ipynb)\<close>

subsection \<open>Worksheet cells as openpyxl returns them\<close>

text \<open>
  \<^verbatim>\<open>sheet.iter_rows(values_only=True)\<close> yields one tuple of cell values per row. A
  cell value is \<^verbatim>\<open>None\<close>, a \<^verbatim>\<open>str\<close>, an \<^verbatim>\<open>int\<close>, a \<^verbatim>\<open>bool\<close>, or another Python object
  (a float, a date). The notebook only asks two things of a value: its truth value
  (\<^verbatim>\<open>if key_cell and val_cell\<close>) and its \<^verbatim>\<open>str()\<close> text, so any other object is
  represented by these two.
\<close>

datatype cell =
    CNone
  | CStr string
  | CInt int
  | CBool bool
  | COther bool string

text \<open>Python's truth value of a cell: \<^verbatim>\<open>None\<close>, \<^verbatim>\<open>''\<close>, \<^verbatim>\<open>0\<close> and \<^verbatim>\<open>False\<close> are falsy.\<close>

fun truthy :: "cell \<Rightarrow> bool" where
  "truthy CNone = False"
| "truthy (CStr s) = (s \<noteq> [])"
| "truthy (CInt n) = (n \<noteq> 0)"
| "truthy (CBool b) = b"
| "truthy (COther t s) = t"

definition digit_char :: "nat \<Rightarrow> char" where
  "digit_char d = ''0123456789'' ! d"

fun str_nat :: "nat \<Rightarrow> string" where
  "str_nat n = (if n < 10 then [digit_char n] else str_nat (n div 10) @ [digit_char (n mod 10)])"

definition str_int :: "int \<Rightarrow> string" where
  "str_int i = (if i < 0 then CHR ''-'' # str_nat (nat (- i)) else str_nat (nat i))"

text \<open>Python's \<^verbatim>\<open>str(value)\<close>.\<close>

fun py_str :: "cell \<Rightarrow> string" where
  "py_str CNone = ''None''"
| "py_str (CStr s) = s"
| "py_str (CInt n) = str_int n"
| "py_str (CBool b) = (if b then ''True'' else ''False'')"
| "py_str (COther t s) = s"

subsection \<open>String helpers: strip, lower\<close>

text \<open>
  Characters are code points below 256. \<^verbatim>\<open>str.strip()\<close> removes leading and trailing
  whitespace; the whitespace code points of that range are 9 to 13, 28 to 32, 133 and 160.
\<close>

definition isspace :: "char \<Rightarrow> bool" where
  "isspace c = (let n = (of_char c :: nat) in
     (9 \<le> n \<and> n \<le> 13) \<or> (28 \<le> n \<and> n \<le> 32) \<or> n = 133 \<or> n = 160)"

definition strip :: "string \<Rightarrow> string" where
  "strip s = rev (dropWhile isspace (rev (dropWhile isspace s)))"

text \<open>
  \<^verbatim>\<open>str.lower()\<close> on one code point below 256: the ASCII capitals and the Latin-1
  capitals (192 to 222, except the multiplication sign 215) move up by 32.
\<close>

definition lower_char :: "char \<Rightarrow> char" where
  "lower_char c = (let n = (of_char c :: nat) in
     if (65 \<le> n \<and> n \<le> 90) \<or> (192 \<le> n \<and> n \<le> 222 \<and> n \<noteq> 215)
     then char_of (n + 32) else c)"

definition lower :: "string \<Rightarrow> string" where
  "lower s = map lower_char s"

subsection \<open>Reading the template\<close>

text \<open>
  \<^verbatim>\<open>template_dict\<close> is a Python dict, which keeps insertion order; it is an association
  list here, a new key appended at the end. \<^verbatim>\<open>key not in template_dict\<close> is
  \<open>map_of td key = None\<close>.
\<close>

type_synonym template = "(string \<times> string) list"

text \<open>\<^verbatim>\<open>row[i] if len(row) > i else None\<close>\<close>

definition cell_at :: "cell list \<Rightarrow> nat \<Rightarrow> cell" where
  "cell_at row i = (if length row > i then row ! i else CNone)"

text \<open>The body of the loop over the rows of the worksheet.\<close>

definition template_step :: "template \<Rightarrow> cell list \<Rightarrow> template" where
  "template_step td row =
     (let key_cell = cell_at row 0;
          val_cell = cell_at row 1
      in if truthy key_cell \<and> truthy val_cell then
           (let key = strip (py_str key_cell);
                value = strip (py_str val_cell)
            in if map_of td key = None then td @ [(key, value)] else td)
         else td)"

definition template_dict :: "cell list list \<Rightarrow> template" where
  "template_dict rows = foldl template_step [] rows"

text \<open>
  A row is used for \<open>key\<close> when both of its first two cells are truthy and the stripped
  text of the first is \<open>key\<close>.
\<close>

definition row_has_key :: "string \<Rightarrow> cell list \<Rightarrow> bool" where
  "row_has_key key row =
     (truthy (cell_at row 0) \<and> truthy (cell_at row 1) \<and> strip (py_str (cell_at row 0)) = key)"

definition row_value :: "cell list \<Rightarrow> string" where
  "row_value row = strip (py_str (cell_at row 1))"

text \<open>
  The reading of "a row in which the key appears with a non-empty value in column B"
  that takes "empty" by the letter: the cell is \<^verbatim>\<open>None\<close> or the empty string.
\<close>

definition empty_cell :: "cell \<Rightarrow> bool" where
  "empty_cell c = (c = CNone \<or> c = CStr [])"

definition row_shows_key :: "string \<Rightarrow> cell list \<Rightarrow> bool" where
  "row_shows_key key row =
     (\<not> empty_cell (cell_at row 0) \<and> \<not> empty_cell (cell_at row 1)
      \<and> strip (py_str (cell_at row 0)) = key)"

subsection \<open>Organising the template and calling the converter\<close>

datatype nb_error =
    MissingDocumentDesc
  | MissingRowDesc
  | ConversionRaised

text \<open>
  \<^verbatim>\<open>page_by_page = False\<close>, then, if the key is in the template,
  \<^verbatim>\<open>(v == '1' or v.lower() == 'true')\<close>.
\<close>

definition page_by_page :: "template \<Rightarrow> bool" where
  "page_by_page td =
     (case map_of td ''meta_opt_page_by_page'' of
        None \<Rightarrow> False
      | Some v \<Rightarrow> v = ''1'' \<or> lower v = ''true'')"

text \<open>\<^verbatim>\<open>output_data\<close>: the entries whose key does not start with \<^verbatim>\<open>meta_\<close>, in order.\<close>

definition startswith :: "string \<Rightarrow> string \<Rightarrow> bool" where
  "startswith s p = (take (length p) s = p)"

definition output_data :: "template \<Rightarrow> template" where
  "output_data td = filter (\<lambda>(k, v). \<not> startswith k ''meta_'') td"

text \<open>The arguments of one call \<^verbatim>\<open>doc_interface.convert_to_json(...)\<close>.\<close>

record convert_call =
  file_to_process :: string
  json_context :: string
  json_job :: string
  json_output_spec :: string
  markdown_first :: bool

definition nl :: string where
  "nl = [CHR 0x0A]"

definition output_spec :: "template \<Rightarrow> string" where
  "output_spec od =
     foldl (\<lambda>acc (k, v). acc @ nl @ nl @ ''  * `'' @ k @ ''` (string): '' @ v)
       (''Return JSON with the following fields (and only the following fields):'' @ nl @ nl
        @ ''* `rows` (list): The list of rows extracted, or an empty list if none found. ''
        @ ''Each row should contain the following fields:'')
       od"

definition make_call ::
  "bool \<Rightarrow> string \<Rightarrow> string \<Rightarrow> template \<Rightarrow> string \<Rightarrow> convert_call" where
  "make_call pbp document_desc row_desc od f =
     \<lparr> file_to_process = f,
       json_context = ''The file contains the following: '' @ document_desc,
       json_job = ''Your job is to extract a series of row objects from the file's content, ''
         @ ''and to return them all in a specific JSON format. ''
         @ ''Each row object should represent the following: '' @ row_desc,
       json_output_spec = output_spec od,
       markdown_first = (\<not> pbp) \<rparr>"

text \<open>\<^verbatim>\<open>os.path.basename\<close>: what follows the last slash.\<close>

definition basename :: "string \<Rightarrow> string" where
  "basename p = rev (takeWhile (\<lambda>c. c \<noteq> CHR ''/'') (rev p))"

text \<open>
  The loop over \<^verbatim>\<open>all_files\<close>. The converter and the merge of its responses are outside
  the notebook: \<open>conv\<close> gives the rows extracted for a call, or \<open>None\<close> when the call (or
  reading \<^verbatim>\<open>merged_responses['rows']\<close>) raises, which ends the cell. The result is the
  list of calls made, in order, and either the error or \<^verbatim>\<open>all_rows\<close>.
\<close>

fun process_files ::
  "(convert_call \<Rightarrow> 'r option) \<Rightarrow> (string \<Rightarrow> convert_call) \<Rightarrow> string list
     \<Rightarrow> convert_call list \<times> (nb_error + (string \<times> 'r) list)" where
  "process_files conv mk [] = ([], Inr [])"
| "process_files conv mk (f # fs) =
     (case conv (mk f) of
        None \<Rightarrow> ([mk f], Inl ConversionRaised)
      | Some rows \<Rightarrow>
          (case process_files conv mk fs of
             (calls, Inl e) \<Rightarrow> (mk f # calls, Inl e)
           | (calls, Inr all_rows) \<Rightarrow> (mk f # calls, Inr ((basename f, rows) # all_rows))))"

text \<open>
  The extraction cell, from the rows of the first worksheet and the list of files to
  process (after unzipping, which is the file system's business).
\<close>

definition extract_cell ::
  "(convert_call \<Rightarrow> 'r option) \<Rightarrow> cell list list \<Rightarrow> string list
     \<Rightarrow> convert_call list \<times> (nb_error + (string \<times> 'r) list)" where
  "extract_cell conv rows all_files =
     (let td = template_dict rows in
      case map_of td ''meta_document_desc'' of
        None \<Rightarrow> ([], Inl MissingDocumentDesc)
      | Some document_desc \<Rightarrow>
          (case map_of td ''meta_row_desc'' of
             None \<Rightarrow> ([], Inl MissingRowDesc)
           | Some row_desc \<Rightarrow>
               process_files conv
                 (make_call (page_by_page td) document_desc row_desc (output_data td))
                 all_files))"

section \<open>The qualitative-analysis notebook (example-qual-analysis-1.ipynb)\<close>

subsection \<open>Codes, documents and the coding of a document\<close>

text \<open>
  A code of the codebook is a dict with the keys \<^verbatim>\<open>id\<close>, \<^verbatim>\<open>label\<close>, \<^verbatim>\<open>definition\<close> and
  \<^verbatim>\<open>example\<close>; a code assigned to a document is a dict with the keys \<^verbatim>\<open>id\<close> and
  \<^verbatim>\<open>excerpt\<close>. The field names carry a prefix where the key is a reserved word here.
\<close>

record code =
  code_id :: string
  code_label :: string
  code_definition :: string
  code_example :: string

record assigned =
  assigned_id :: string
  excerpt :: string

text \<open>
  \<^verbatim>\<open>document['codes']\<close> is either the empty string (the coding call returned an error) or
  the list of assigned codes of the parsed response.
\<close>

datatype doc_codes =
    EmptyString
  | CodeList "assigned list"

record document =
  doc_file :: string
  doc_text :: string
  doc_summary :: string
  codes :: doc_codes

text \<open>
  One turn of the coding loop, after the call
  \<^verbatim>\<open>parsed_response, raw_response, error = llm.get_json_response(...)\<close>.
  \<open>parsed_codes\<close> is \<^verbatim>\<open>parsed_response['codes']\<close>, or \<open>None\<close> where that lookup raises
  (no parsed response, or no such key). \<^verbatim>\<open>if error:\<close> holds for a non-empty error text.
\<close>

datatype py_error =
    TypeOrKeyError
  | ZeroDivisionError

definition record_coding ::
  "assigned list option \<times> string \<times> string option \<Rightarrow> document \<Rightarrow> py_error + document" where
  "record_coding response doc =
     (case response of (parsed_codes, raw_response, error) \<Rightarrow>
        if error \<noteq> None \<and> error \<noteq> Some [] then Inr (doc\<lparr>codes := EmptyString\<rparr>)
        else (case parsed_codes of
                None \<Rightarrow> Inl TypeOrKeyError
              | Some cs \<Rightarrow> Inr (doc\<lparr>codes := CodeList cs\<rparr>)))"

subsection \<open>Organising and outputting the results\<close>

text \<open>Iterating over \<^verbatim>\<open>document['codes']\<close>: the empty string has no elements.\<close>

fun entries :: "doc_codes \<Rightarrow> assigned list" where
  "entries EmptyString = []"
| "entries (CodeList cs) = cs"

text \<open>\<^verbatim>\<open>code_id in [c['id'] for c in document['codes']]\<close>\<close>

definition code_in_document :: "string \<Rightarrow> document \<Rightarrow> bool" where
  "code_in_document cid d = (cid \<in> set (map assigned_id (entries (codes d))))"

text \<open>\<^verbatim>\<open>sum([code['id'] in [...] for document in documents])\<close>: the sum of the truth values.\<close>

definition num_transcripts :: "string \<Rightarrow> document list \<Rightarrow> nat" where
  "num_transcripts cid documents =
     sum_list (map (\<lambda>d. if code_in_document cid d then 1 else 0) documents)"

record tallied_code = code +
  tally :: nat

definition tally_code :: "document list \<Rightarrow> code \<Rightarrow> tallied_code" where
  "tally_code documents c =
     \<lparr> code_id = code_id c, code_label = code_label c, code_definition = code_definition c,
       code_example = code_example c, tally = num_transcripts (code_id c) documents \<rparr>"

text \<open>
  \<^verbatim>\<open>sorted(codes, key=lambda x: x['num_transcripts'], reverse=True)\<close>: descending and
  stable, codes with the same tally keep their order.
\<close>

definition sort_codes :: "tallied_code list \<Rightarrow> tallied_code list" where
  "sort_codes cs = sort_key (\<lambda>c. - int (tally c)) cs"

datatype csv_value =
    CsvInt int
  | CsvStr string

text \<open>\<^verbatim>\<open>next((c['excerpt'] for c in document['codes'] if c['id'] == code_id), "")\<close>\<close>

definition code_excerpt :: "string \<Rightarrow> document \<Rightarrow> string" where
  "code_excerpt cid d =
     (case find (\<lambda>c. assigned_id c = cid) (entries (codes d)) of
        None \<Rightarrow> []
      | Some c \<Rightarrow> excerpt c)"

definition code_present :: "string \<Rightarrow> document \<Rightarrow> int" where
  "code_present cid d = (if code_in_document cid d then 1 else 0)"

definition code_values :: "tallied_code list \<Rightarrow> document \<Rightarrow> csv_value list" where
  "code_values cs d =
     concat (map (\<lambda>c. [CsvInt (code_present (code_id c) d), CsvStr (code_excerpt (code_id c) d)]) cs)"

definition code_columns :: "tallied_code list \<Rightarrow> csv_value list" where
  "code_columns cs =
     concat (map (\<lambda>c. [CsvStr (code_id c), CsvStr (code_id c @ ''_excerpt'')]) cs)"

definition document_row :: "tallied_code list \<Rightarrow> document \<Rightarrow> csv_value list" where
  "document_row cs d = [CsvStr (doc_file d), CsvStr (doc_summary d)] @ code_values cs d"

text \<open>
  The output cell: the codes with their tallies, sorted, and the rows of the documents
  file, header first. \<^verbatim>\<open>pct_transcripts\<close> is a float and is left out, but its division
  by \<^verbatim>\<open>len(documents)\<close> raises when there is a code and no document.
\<close>

definition output_cell ::
  "code list \<Rightarrow> document list \<Rightarrow> py_error + (tallied_code list \<times> csv_value list list)" where
  "output_cell cs documents =
     (if cs \<noteq> [] \<and> documents = [] then Inl ZeroDivisionError
      else (let sorted_codes = sort_codes (map (tally_code documents) cs)
            in Inr (sorted_codes,
                    ([CsvStr ''file'', CsvStr ''summary''] @ code_columns sorted_codes)
                    # map (document_row sorted_codes) documents)))"

section \<open>Choosing a conversion strategy\<close>

text \<open>
  Modelled from the spec: the bodies of \<^verbatim>\<open>DocumentInterface.convert_to_markdown\<close> and
  \<^verbatim>\<open>DocumentInterface.convert_to_json\<close> (module \<^verbatim>\<open>document_utilities\<close>) are not among the
  sources; only their callers in the notebooks and their description in the README are.
  The strategies, the rules and their order are those of section 4.1 of the spec; the
  README's section "Markdown conversion" lists the same conditions for rules 1 to 6.
\<close>

datatype doc_format =
    PDF | DOCX | DOC | PPTX | XLSX | CSV | HTML | PlainText | OtherText | Unrecognized

record doc_info =
  path :: string
  format :: doc_format
  page_count :: nat
  estimated_tokens :: nat
  has_charts_or_images :: bool
  size_bytes :: nat

record capabilities =
  llm_configured :: bool
  renderer_available :: bool

datatype strategy =
    PLAIN_PARSE
  | GENERIC_NONLLM_PARSE
  | LLM_PAGE_IMAGE
  | OFFICE_VIA_PDF_THEN_LLM
  | OFFICE_VIA_PDF_THEN_NONLLM
  | SPREADSHEET_STRUCTURED_PARSE
  | PAGE_BY_PAGE_JSON_DIRECT

text \<open>
  Modelled from the spec: rules 1 to 6 of the decision policy, in their order. For an
  office format \<open>page_count\<close> is the page count after rendering to PDF. The rules read
  the format, the presence of charts or images, the page count and whether an LLM is
  configured, and nothing else.
\<close>

definition select :: "doc_info \<Rightarrow> capabilities \<Rightarrow> strategy" where
  "select d caps =
     (if format d = PDF \<and> llm_configured caps then LLM_PAGE_IMAGE
      else if format d = PDF then GENERIC_NONLLM_PARSE
      else if format d = XLSX \<and> \<not> has_charts_or_images d then SPREADSHEET_STRUCTURED_PARSE
      else if format d = XLSX then
        (if llm_configured caps \<and> page_count d \<le> 10 then OFFICE_VIA_PDF_THEN_LLM
         else GENERIC_NONLLM_PARSE)
      else if format d \<in> {DOCX, DOC, PPTX} then
        (if llm_configured caps then OFFICE_VIA_PDF_THEN_LLM else GENERIC_NONLLM_PARSE)
      else GENERIC_NONLLM_PARSE)"





section \<open>Properties of the templated-extraction notebook\<close>

subsection \<open>The template dictionary\<close>

lemma map_of_snoc_fresh:
  "map_of td k = None \<Longrightarrow> map_of (td @ [(k, v)]) key = (if key = k then Some v else map_of td key)"
  by (simp add: map_add_def split: option.splits)

lemma template_step_lookup:
  "map_of (template_step td row) key =
     (case map_of td key of
        Some v \<Rightarrow> Some v
      | None \<Rightarrow> if row_has_key key row then Some (row_value row) else None)"
proof (cases "truthy (cell_at row 0) \<and> truthy (cell_at row 1)")
  case False
  then show ?thesis
    by (auto simp: template_step_def row_has_key_def Let_def split: option.splits)
next
  case True
  define k where "k = strip (py_str (cell_at row 0))"
  define v where "v = strip (py_str (cell_at row 1))"
  have step: "template_step td row = (if map_of td k = None then td @ [(k, v)] else td)"
    using True by (simp add: template_step_def Let_def k_def v_def)
  have has: "row_has_key key row \<longleftrightarrow> k = key"
    using True by (simp add: row_has_key_def k_def)
  have val: "row_value row = v" by (simp add: row_value_def v_def)
  show ?thesis
  proof (cases "map_of td k")
    case None
    then have "map_of (template_step td row) key = (if key = k then Some v else map_of td key)"
      unfolding step using map_of_snoc_fresh[of td k v key] by simp
    then show ?thesis using None by (auto simp: has val split: option.splits)
  next
    case (Some w)
    then show ?thesis unfolding step by (auto simp: has val split: option.splits)
  qed
qed

lemma foldl_template_step_lookup:
  "map_of (foldl template_step td rows) key =
     (case map_of td key of
        Some v \<Rightarrow> Some v
      | None \<Rightarrow> map_option row_value (find (row_has_key key) rows))"
proof (induction rows arbitrary: td)
  case Nil
  then show ?case by (simp split: option.splits)
next
  case (Cons row rows)
  show ?case
    by (simp add: Cons.IH template_step_lookup split: option.splits)
qed

lemma template_step_distinct:
  "distinct (map fst td) \<Longrightarrow> distinct (map fst (template_step td row))"
  by (auto simp: template_step_def Let_def map_of_eq_None_iff)

lemma foldl_template_step_distinct:
  "distinct (map fst td) \<Longrightarrow> distinct (map fst (foldl template_step td rows))"
  by (induction rows arbitrary: td) (simp_all add: template_step_distinct)

lemma dropWhile_fixed: "xs = [] \<or> \<not> P (hd xs) \<Longrightarrow> dropWhile P xs = xs"
  by (cases xs) auto

lemma strip_idem: "strip (strip s) = strip s"
proof -
  define t where "t = dropWhile isspace s"
  define u where "u = rev (dropWhile isspace (rev t))"
  have su: "strip s = u" by (simp add: strip_def t_def u_def)
  have t_hd: "t = [] \<or> \<not> isspace (hd t)"
    unfolding t_def using hd_dropWhile[of isspace s] by blast
  have u_last: "rev u = [] \<or> \<not> isspace (hd (rev u))"
    unfolding u_def using hd_dropWhile[of isspace "rev t"] by auto
  have "\<exists>r. t = u @ r \<and> (\<forall>x\<in>set r. isspace x)"
  proof -
    have "rev t = takeWhile isspace (rev t) @ dropWhile isspace (rev t)" by simp
    then have "t = rev (dropWhile isspace (rev t)) @ rev (takeWhile isspace (rev t))"
      by (metis rev_append rev_rev_ident)
    moreover have "\<forall>x\<in>set (rev (takeWhile isspace (rev t))). isspace x"
      by (auto dest: set_takeWhileD)
    ultimately show ?thesis unfolding u_def by blast
  qed
  then obtain r where r: "t = u @ r" "\<forall>x\<in>set r. isspace x" by blast
  have u_hd: "u = [] \<or> \<not> isspace (hd u)"
  proof (cases u)
    case Nil then show ?thesis by simp
  next
    case (Cons a as)
    with r t_hd show ?thesis by auto
  qed
  have "dropWhile isspace u = u" using u_hd by (rule dropWhile_fixed)
  moreover have "dropWhile isspace (rev u) = rev u" using u_last by (rule dropWhile_fixed)
  ultimately have "strip u = u" by (simp add: strip_def)
  then show ?thesis by (simp add: su)
qed

lemma template_step_stripped:
  "\<forall>(k, v)\<in>set td. strip k = k \<and> strip v = v \<Longrightarrow>
   \<forall>(k, v)\<in>set (template_step td row). strip k = k \<and> strip v = v"
  by (auto simp: template_step_def Let_def strip_idem)

lemma foldl_template_step_stripped:
  "\<forall>(k, v)\<in>set td. strip k = k \<and> strip v = v \<Longrightarrow>
   \<forall>(k, v)\<in>set (foldl template_step td rows). strip k = k \<and> strip v = v"
proof (induction rows arbitrary: td)
  case Nil then show ?case by simp
next
  case (Cons row rows)
  show ?case using Cons.IH[OF template_step_stripped[OF Cons.prems]] by simp
qed

lemma template_step_skip:
  "\<not> (truthy (cell_at row 0) \<and> truthy (cell_at row 1)) \<Longrightarrow> template_step td row = td"
  by (auto simp: template_step_def Let_def)

text \<open>
  What the loop computes. The template maps a key to the stripped value of the first row
  whose first two cells are both truthy and whose stripped first cell is the key, and has
  no entry for a key with no such row. No key occurs twice, so a later row never
  overwrites an earlier value; every key and value is a stripped string; and a row with a
  falsy first or second cell leaves the template as it is.
\<close>

lemma template_dict_first_truthy_row:
  "map_of (template_dict rows) key = map_option row_value (find (row_has_key key) rows)
   \<and> distinct (map fst (template_dict rows))
   \<and> (\<forall>(k, v)\<in>set (template_dict rows). strip k = k \<and> strip v = v)
   \<and> (\<not> (truthy (cell_at row 0) \<and> truthy (cell_at row 1)) \<longrightarrow>
        template_dict (pre @ row # post) = template_dict (pre @ post))"
proof (intro conjI impI)
  show "map_of (template_dict rows) key = map_option row_value (find (row_has_key key) rows)"
    by (simp add: template_dict_def foldl_template_step_lookup)
  show "distinct (map fst (template_dict rows))"
    by (simp add: template_dict_def foldl_template_step_distinct)
  show "\<forall>(k, v)\<in>set (template_dict rows). strip k = k \<and> strip v = v"
    unfolding template_dict_def by (rule foldl_template_step_stripped) simp
  show "template_dict (pre @ row # post) = template_dict (pre @ post)"
    if "\<not> (truthy (cell_at row 0) \<and> truthy (cell_at row 1))"
    using that by (simp add: template_dict_def template_step_skip)
qed

text \<open>
  The lemma at a worksheet of three rows for the key \<^verbatim>\<open>a\<close>: the first has the value
  \<^verbatim>\<open>0\<close> and is skipped, the second gives the value, the third does not overwrite it.
\<close>

lemma template_dict_first_truthy_row_example:
  "map_of (template_dict [[CStr ''a'', CInt 0], [CStr '' a '', CStr ''x ''], [CStr ''a'', CStr ''y'']]) ''a''
     = Some ''x''
   \<and> distinct (map fst (template_dict [[CStr ''a'', CInt 0], [CStr '' a '', CStr ''x ''], [CStr ''a'', CStr ''y'']]))
   \<and> (''a'', ''x'') \<in> set (template_dict [[CStr ''a'', CInt 0], [CStr '' a '', CStr ''x ''], [CStr ''a'', CStr ''y'']])
   \<and> strip ''a'' = ''a'' \<and> strip ''x'' = ''x''
   \<and> \<not> (truthy (cell_at [CStr ''a'', CInt 0] 0) \<and> truthy (cell_at [CStr ''a'', CInt 0] 1))
   \<and> template_dict ([] @ [CStr ''a'', CInt 0] # [[CStr '' a '', CStr ''x ''], [CStr ''a'', CStr ''y'']])
       = template_dict ([] @ [[CStr '' a '', CStr ''x ''], [CStr ''a'', CStr ''y'']])"
proof -
  let ?rows = "[[CStr ''a'', CInt 0], [CStr '' a '', CStr ''x ''], [CStr ''a'', CStr ''y'']]"
  note inst = template_dict_first_truthy_row[of ?rows "''a''" "[CStr ''a'', CInt 0]" "[]"
      "[[CStr '' a '', CStr ''x ''], [CStr ''a'', CStr ''y'']]"]
  have falsy: "\<not> (truthy (cell_at [CStr ''a'', CInt 0] 0) \<and> truthy (cell_at [CStr ''a'', CInt 0] 1))"
    by (simp add: cell_at_def)
  have found: "find (row_has_key ''a'') ?rows = Some [CStr '' a '', CStr ''x '']"
    by (simp add: row_has_key_def cell_at_def strip_def isspace_def)
  have val: "row_value [CStr '' a '', CStr ''x ''] = ''x''"
    by (simp add: row_value_def cell_at_def strip_def isspace_def)
  have look: "map_of (template_dict ?rows) ''a'' = Some ''x''"
    using inst by (simp only: found val option.map)
  have mem: "(''a'', ''x'') \<in> set (template_dict ?rows)"
    using look by (rule map_of_SomeD)
  have stripped: "strip ''a'' = ''a'' \<and> strip ''x'' = ''x''"
    using inst mem by blast
  show ?thesis using inst falsy look mem stripped by blast
qed

text \<open>
  On a worksheet whose cells are all \<^verbatim>\<open>None\<close> or strings, a cell is truthy exactly when
  it is not empty, and the template maps a key to the stripped value of the first row in
  which the key appears with a non-empty cell in column B.
\<close>

lemma cell_at_text:
  assumes "\<forall>c\<in>set row. c = CNone \<or> (\<exists>s. c = CStr s)"
  shows "cell_at row i = CNone \<or> (\<exists>s. cell_at row i = CStr s)"
proof (cases "i < length row")
  case True
  then have "row ! i \<in> set row" by simp
  with assms True show ?thesis by (auto simp: cell_at_def)
next
  case False
  then show ?thesis by (simp add: cell_at_def)
qed

lemma truthy_text: "c = CNone \<or> (\<exists>s. c = CStr s) \<Longrightarrow> truthy c \<longleftrightarrow> \<not> empty_cell c"
  by (auto simp: empty_cell_def)

lemma row_has_key_text:
  assumes "\<forall>c\<in>set row. c = CNone \<or> (\<exists>s. c = CStr s)"
  shows "row_has_key key row \<longleftrightarrow> row_shows_key key row"
  using truthy_text[OF cell_at_text[OF assms, of 0]] truthy_text[OF cell_at_text[OF assms, of 1]]
  by (simp add: row_has_key_def row_shows_key_def)

lemma template_dict_text_cells:
  assumes "\<forall>row\<in>set rows. \<forall>c\<in>set row. c = CNone \<or> (\<exists>s. c = CStr s)"
  shows "map_of (template_dict rows) key = map_option row_value (find (row_shows_key key) rows)"
proof -
  have "find (row_has_key key) rows = find (row_shows_key key) rows"
    using assms by (intro find_cong refl) (simp add: row_has_key_text)
  then show ?thesis
    by (simp add: template_dict_def foldl_template_step_lookup)
qed

text \<open>
  C8 fails on the code for a cell that holds the number 0. In the worksheet below the
  first row in which the key \<^verbatim>\<open>a\<close> appears with a non-empty cell in column B is the first
  one; its cell in column B holds 0, which has content, and its stripped text is \<^verbatim>\<open>0\<close>.
  The guard \<^verbatim>\<open>if key_cell and val_cell\<close> takes 0 for no content and skips the row, so the
  template maps \<^verbatim>\<open>a\<close> to the value of the second row.
\<close>

theorem template_dict_skips_zero_value:
  "find (row_shows_key ''a'') [[CStr ''a'', CInt 0], [CStr ''a'', CStr ''x'']]
     = Some [CStr ''a'', CInt 0]
   \<and> row_value [CStr ''a'', CInt 0] = ''0''
   \<and> map_of (template_dict [[CStr ''a'', CInt 0], [CStr ''a'', CStr ''x'']]) ''a'' = Some ''x''"
  by (simp add: row_shows_key_def empty_cell_def row_value_def template_dict_def
      template_step_def cell_at_def strip_def isspace_def str_int_def digit_char_def)

subsection \<open>The calls of the converter\<close>

lemma process_files_calls:
  "set (fst (process_files conv mk fs)) \<subseteq> mk ` set fs"
proof (induction fs)
  case Nil
  then show ?case by simp
next
  case (Cons f fs)
  then show ?case
    by (auto split: option.splits prod.splits sum.splits)
qed

lemma markdown_first_make_call: "markdown_first (make_call pbp d r od f) = (\<not> pbp)"
  by (simp add: make_call_def)

lemma extract_cell_calls:
  "c \<in> set (fst (extract_cell conv rows all_files)) \<Longrightarrow>
     markdown_first c = (\<not> page_by_page (template_dict rows))"
proof -
  assume c: "c \<in> set (fst (extract_cell conv rows all_files))"
  show ?thesis
  proof (cases "map_of (template_dict rows) ''meta_document_desc''")
    case None
    with c show ?thesis by (simp add: extract_cell_def)
  next
    case (Some d)
    show ?thesis
    proof (cases "map_of (template_dict rows) ''meta_row_desc''")
      case None
      with c Some show ?thesis by (simp add: extract_cell_def)
    next
      case r: (Some r)
      from c Some r have "c \<in> set (fst (process_files conv
          (make_call (page_by_page (template_dict rows)) d r (output_data (template_dict rows)))
          all_files))"
        by (simp add: extract_cell_def Let_def)
      then obtain f where "c = make_call (page_by_page (template_dict rows)) d r
          (output_data (template_dict rows)) f"
        using process_files_calls by blast
      then show ?thesis by (simp add: markdown_first_make_call)
    qed
  qed
qed

lemma lower_char_ascii:
  assumes "97 \<le> (of_char a :: nat)" "(of_char a :: nat) \<le> 122"
  shows "lower_char c = a \<longleftrightarrow> c = a \<or> (of_char c :: nat) + 32 = of_char a"
proof (cases "(65 \<le> (of_char c :: nat) \<and> (of_char c :: nat) \<le> 90)
    \<or> (192 \<le> (of_char c :: nat) \<and> (of_char c :: nat) \<le> 222 \<and> (of_char c :: nat) \<noteq> 215)")
  case True
  then have small: "(of_char c :: nat) + 32 < 256" by auto
  have "lower_char c = char_of ((of_char c :: nat) + 32)"
    using True by (simp add: lower_char_def Let_def)
  then have "lower_char c = a \<longleftrightarrow> take_bit 8 ((of_char c :: nat) + 32) = of_char a"
    by (simp add: char_of_eq_iff)
  also have "take_bit 8 ((of_char c :: nat) + 32) = of_char c + 32"
    using small by (simp add: take_bit_nat_eq_self_iff)
  finally have eq: "lower_char c = a \<longleftrightarrow> (of_char c :: nat) + 32 = of_char a" .
  have "c \<noteq> a" using True assms by auto
  then show ?thesis using eq by simp
next
  case False
  then have "lower_char c = c" by (auto simp: lower_char_def Let_def)
  moreover have "(of_char c :: nat) + 32 \<noteq> of_char a" using False assms by auto
  ultimately show ?thesis by simp
qed

lemma lower_char_t: "lower_char c = CHR ''t'' \<longleftrightarrow> c = CHR ''t'' \<or> c = CHR ''T''"
proof -
  have "(of_char c :: nat) + 32 = of_char (CHR ''t'') \<longleftrightarrow> (of_char c :: nat) = of_char (CHR ''T'')"
    by simp
  then show ?thesis using lower_char_ascii[of "CHR ''t''" c] by (simp only: of_char_eq_iff) simp
qed

lemma lower_char_r: "lower_char c = CHR ''r'' \<longleftrightarrow> c = CHR ''r'' \<or> c = CHR ''R''"
proof -
  have "(of_char c :: nat) + 32 = of_char (CHR ''r'') \<longleftrightarrow> (of_char c :: nat) = of_char (CHR ''R'')"
    by simp
  then show ?thesis using lower_char_ascii[of "CHR ''r''" c] by (simp only: of_char_eq_iff) simp
qed

lemma lower_char_u: "lower_char c = CHR ''u'' \<longleftrightarrow> c = CHR ''u'' \<or> c = CHR ''U''"
proof -
  have "(of_char c :: nat) + 32 = of_char (CHR ''u'') \<longleftrightarrow> (of_char c :: nat) = of_char (CHR ''U'')"
    by simp
  then show ?thesis using lower_char_ascii[of "CHR ''u''" c] by (simp only: of_char_eq_iff) simp
qed

lemma lower_char_e: "lower_char c = CHR ''e'' \<longleftrightarrow> c = CHR ''e'' \<or> c = CHR ''E''"
proof -
  have "(of_char c :: nat) + 32 = of_char (CHR ''e'') \<longleftrightarrow> (of_char c :: nat) = of_char (CHR ''E'')"
    by simp
  then show ?thesis using lower_char_ascii[of "CHR ''e''" c] by (simp only: of_char_eq_iff) simp
qed

lemma lower_true:
  "lower v = ''true'' \<longleftrightarrow>
     (\<exists>a b c d. v = [a, b, c, d] \<and> a \<in> {CHR ''t'', CHR ''T''} \<and> b \<in> {CHR ''r'', CHR ''R''}
        \<and> c \<in> {CHR ''u'', CHR ''U''} \<and> d \<in> {CHR ''e'', CHR ''E''})"
proof
  assume "lower v = ''true''"
  then obtain a b c d where v: "v = [a, b, c, d]"
    and "lower_char a = CHR ''t''" "lower_char b = CHR ''r''"
        "lower_char c = CHR ''u''" "lower_char d = CHR ''e''"
    unfolding lower_def by (auto simp: map_eq_Cons_conv)
  then show "\<exists>a b c d. v = [a, b, c, d] \<and> a \<in> {CHR ''t'', CHR ''T''} \<and> b \<in> {CHR ''r'', CHR ''R''}
        \<and> c \<in> {CHR ''u'', CHR ''U''} \<and> d \<in> {CHR ''e'', CHR ''E''}"
    using lower_char_t[of a] lower_char_r[of b] lower_char_u[of c] lower_char_e[of d]
    by (intro exI[of _ a] exI[of _ b] exI[of _ c] exI[of _ d]) simp
next
  assume "\<exists>a b c d. v = [a, b, c, d] \<and> a \<in> {CHR ''t'', CHR ''T''} \<and> b \<in> {CHR ''r'', CHR ''R''}
        \<and> c \<in> {CHR ''u'', CHR ''U''} \<and> d \<in> {CHR ''e'', CHR ''E''}"
  then obtain a b c d where v: "v = [a, b, c, d]"
    and a: "a = CHR ''t'' \<or> a = CHR ''T''" and b: "b = CHR ''r'' \<or> b = CHR ''R''"
    and c: "c = CHR ''u'' \<or> c = CHR ''U''" and d: "d = CHR ''e'' \<or> d = CHR ''E''"
    by auto
  have "lower_char a = CHR ''t''" using a by (simp only: lower_char_t)
  moreover have "lower_char b = CHR ''r''" using b by (simp only: lower_char_r)
  moreover have "lower_char c = CHR ''u''" using c by (simp only: lower_char_u)
  moreover have "lower_char d = CHR ''e''" using d by (simp only: lower_char_e)
  ultimately show "lower v = ''true''" by (simp add: lower_def v)
qed

lemma extract_cell_first_call:
  assumes "map_of (template_dict rows) ''meta_document_desc'' \<noteq> None"
    and "map_of (template_dict rows) ''meta_row_desc'' \<noteq> None"
    and "all_files \<noteq> []"
  shows "fst (extract_cell conv rows all_files) \<noteq> []"
proof -
  obtain f fs where fs: "all_files = f # fs" using assms(3) by (cases all_files) auto
  obtain d r where "map_of (template_dict rows) ''meta_document_desc'' = Some d"
    "map_of (template_dict rows) ''meta_row_desc'' = Some r"
    using assms(1,2) by auto
  then show ?thesis
    by (simp add: extract_cell_def Let_def fs split: option.splits prod.splits sum.splits)
qed

text \<open>
  C9. Every call of \<^verbatim>\<open>convert_to_json\<close> that the extraction cell makes has
  \<^verbatim>\<open>markdown_first\<close> equal to the negation of \<^verbatim>\<open>page_by_page\<close>; \<^verbatim>\<open>page_by_page\<close> holds
  exactly when the template has a key \<^verbatim>\<open>meta_opt_page_by_page\<close> whose value is the string
  \<^verbatim>\<open>1\<close> or is \<^verbatim>\<open>true\<close> after lowercasing, that is, one of the sixteen spellings of
  \<^verbatim>\<open>true\<close> in capitals and small letters; with the key absent every call has
  \<^verbatim>\<open>markdown_first\<close> true. A call is made as soon as the two required rows of the template
  are there and there is a file to process.
\<close>

theorem convert_to_json_markdown_first:
  "(\<forall>c\<in>set (fst (extract_cell conv rows all_files)).
      markdown_first c = (\<not> page_by_page (template_dict rows)))
   \<and> (page_by_page td \<longleftrightarrow>
        (\<exists>v. map_of td ''meta_opt_page_by_page'' = Some v \<and> (v = ''1'' \<or> lower v = ''true'')))
   \<and> (lower w = ''true'' \<longleftrightarrow>
        (\<exists>a b c d. w = [a, b, c, d] \<and> a \<in> {CHR ''t'', CHR ''T''} \<and> b \<in> {CHR ''r'', CHR ''R''}
           \<and> c \<in> {CHR ''u'', CHR ''U''} \<and> d \<in> {CHR ''e'', CHR ''E''}))
   \<and> (map_of (template_dict rows) ''meta_opt_page_by_page'' = None \<longrightarrow>
        (\<forall>c\<in>set (fst (extract_cell conv rows all_files)). markdown_first c))
   \<and> (map_of (template_dict rows) ''meta_document_desc'' \<noteq> None
        \<and> map_of (template_dict rows) ''meta_row_desc'' \<noteq> None \<and> all_files \<noteq> []
        \<longrightarrow> fst (extract_cell conv rows all_files) \<noteq> [])"
proof (intro conjI)
  show a: "\<forall>c\<in>set (fst (extract_cell conv rows all_files)).
      markdown_first c = (\<not> page_by_page (template_dict rows))"
    using extract_cell_calls by blast
  show "page_by_page td \<longleftrightarrow>
        (\<exists>v. map_of td ''meta_opt_page_by_page'' = Some v \<and> (v = ''1'' \<or> lower v = ''true''))"
    by (simp add: page_by_page_def split: option.splits)
  show "lower w = ''true'' \<longleftrightarrow>
        (\<exists>a b c d. w = [a, b, c, d] \<and> a \<in> {CHR ''t'', CHR ''T''} \<and> b \<in> {CHR ''r'', CHR ''R''}
           \<and> c \<in> {CHR ''u'', CHR ''U''} \<and> d \<in> {CHR ''e'', CHR ''E''})"
    by (rule lower_true)
  show "map_of (template_dict rows) ''meta_opt_page_by_page'' = None \<longrightarrow>
        (\<forall>c\<in>set (fst (extract_cell conv rows all_files)). markdown_first c)"
    using a by (simp add: page_by_page_def)
  show "map_of (template_dict rows) ''meta_document_desc'' \<noteq> None
        \<and> map_of (template_dict rows) ''meta_row_desc'' \<noteq> None \<and> all_files \<noteq> []
        \<longrightarrow> fst (extract_cell conv rows all_files) \<noteq> []"
    using extract_cell_first_call by blast
qed

text \<open>
  The theorem at a template that asks for page-by-page processing with the boolean cell
  \<^verbatim>\<open>True\<close> (two files, both called with \<^verbatim>\<open>markdown_first=False\<close>), and at a template
  without the option (one file, called with \<^verbatim>\<open>markdown_first=True\<close>).
\<close>

theorem convert_to_json_markdown_first_witness:
  "template_dict [[CStr ''meta_document_desc'', CStr ''invoices''],
                  [CStr ''meta_row_desc'', CStr ''one line item''],
                  [CStr ''meta_opt_page_by_page'', CBool True],
                  [CStr ''amount'', CStr ''the amount due'']]
     = [(''meta_document_desc'', ''invoices''), (''meta_row_desc'', ''one line item''),
        (''meta_opt_page_by_page'', ''True''), (''amount'', ''the amount due'')]
   \<and> page_by_page [(''meta_document_desc'', ''invoices''), (''meta_row_desc'', ''one line item''),
        (''meta_opt_page_by_page'', ''True''), (''amount'', ''the amount due'')]
   \<and> map markdown_first (fst (extract_cell (\<lambda>c. Some ())
        [[CStr ''meta_document_desc'', CStr ''invoices''],
         [CStr ''meta_row_desc'', CStr ''one line item''],
         [CStr ''meta_opt_page_by_page'', CBool True],
         [CStr ''amount'', CStr ''the amount due'']] [''a.pdf'', ''b.docx''])) = [False, False]
   \<and> map markdown_first (fst (extract_cell (\<lambda>c. Some ())
        [[CStr ''meta_document_desc'', CStr ''invoices''],
         [CStr ''meta_row_desc'', CStr ''one line item'']] [''a.pdf''])) = [True]"
proof -
  let ?rows = "[[CStr ''meta_document_desc'', CStr ''invoices''],
                [CStr ''meta_row_desc'', CStr ''one line item''],
                [CStr ''meta_opt_page_by_page'', CBool True],
                [CStr ''amount'', CStr ''the amount due'']]"
  let ?td = "[(''meta_document_desc'', ''invoices''), (''meta_row_desc'', ''one line item''),
        (''meta_opt_page_by_page'', ''True''), (''amount'', ''the amount due'')]"
  let ?rows2 = "[[CStr ''meta_document_desc'', CStr ''invoices''],
                 [CStr ''meta_row_desc'', CStr ''one line item'']]"
  have td: "template_dict ?rows = ?td"
    by (simp add: template_dict_def template_step_def cell_at_def strip_def isspace_def)
  have td2: "template_dict ?rows2
      = [(''meta_document_desc'', ''invoices''), (''meta_row_desc'', ''one line item'')]"
    by (simp add: template_dict_def template_step_def cell_at_def strip_def isspace_def)
  note inst = convert_to_json_markdown_first[of "\<lambda>c. Some ()" ?rows "[''a.pdf'', ''b.docx'']" ?td
      "''True''"]
  note inst2 = convert_to_json_markdown_first[of "\<lambda>c. Some ()" ?rows2 "[''a.pdf'']" ?td
      "''True''"]
  have low: "lower ''True'' = ''true''"
    using inst by simp
  have pbp: "page_by_page ?td"
    using inst low by simp
  have ev: "fst (extract_cell (\<lambda>c. Some ()) ?rows [''a.pdf'', ''b.docx''])
      = [make_call (page_by_page ?td) ''invoices'' ''one line item'' (output_data ?td) ''a.pdf'',
         make_call (page_by_page ?td) ''invoices'' ''one line item'' (output_data ?td) ''b.docx'']"
    unfolding extract_cell_def td by (simp add: Let_def)
  have calls: "map markdown_first (fst (extract_cell (\<lambda>c. Some ()) ?rows [''a.pdf'', ''b.docx'']))
      = [False, False]"
    unfolding ev using pbp by (simp add: markdown_first_make_call)
  have ev2: "\<exists>c. fst (extract_cell (\<lambda>c. Some ()) ?rows2 [''a.pdf'']) = [c]"
    unfolding extract_cell_def td2 by (simp add: Let_def)
  have calls2: "map markdown_first (fst (extract_cell (\<lambda>c. Some ()) ?rows2 [''a.pdf''])) = [True]"
  proof -
    have "map_of (template_dict ?rows2) ''meta_opt_page_by_page'' = None"
      by (simp add: td2)
    then have "\<forall>c\<in>set (fst (extract_cell (\<lambda>c. Some ()) ?rows2 [''a.pdf''])). markdown_first c"
      using inst2 by blast
    then show ?thesis using ev2 by auto
  qed
  show ?thesis using td pbp calls calls2 by blast
qed

section \<open>Properties of the qualitative-analysis notebook\<close>

lemma num_transcripts_count:
  "num_transcripts cid documents = length (filter (code_in_document cid) documents)"
  unfolding num_transcripts_def by (induction documents) simp_all

lemma pairs_nth:
  "j < length cs \<Longrightarrow>
     concat (map (\<lambda>c. [f c, g c]) cs) ! (2 * j) = f (cs ! j)
     \<and> concat (map (\<lambda>c. [f c, g c]) cs) ! (2 * j + 1) = g (cs ! j)"
proof (induction cs arbitrary: j)
  case Nil
  then show ?case by simp
next
  case (Cons c cs)
  show ?case
  proof (cases j)
    case 0
    then show ?thesis by simp
  next
    case (Suc k)
    with Cons.prems have "k < length cs" by simp
    from Cons.IH[OF this] show ?thesis using Suc by simp
  qed
qed

lemma code_values_nth:
  assumes "j < length cs"
  shows "code_values cs d ! (2 * j) = CsvInt (code_present (code_id (cs ! j)) d)"
    and "code_values cs d ! (2 * j + 1) = CsvStr (code_excerpt (code_id (cs ! j)) d)"
  using pairs_nth[OF assms, of "\<lambda>c. CsvInt (code_present (code_id c) d)"
      "\<lambda>c. CsvStr (code_excerpt (code_id c) d)"]
  by (simp_all add: code_values_def)

lemma document_row_nth:
  assumes "j < length cs"
  shows "document_row cs d ! (2 + 2 * j) = CsvInt (code_present (code_id (cs ! j)) d)"
    and "document_row cs d ! (3 + 2 * j) = CsvStr (code_excerpt (code_id (cs ! j)) d)"
proof -
  have "document_row cs d ! (2 + 2 * j) = code_values cs d ! (2 * j)"
    by (simp add: document_row_def nth_append)
  then show "document_row cs d ! (2 + 2 * j) = CsvInt (code_present (code_id (cs ! j)) d)"
    using code_values_nth(1)[OF assms] by simp
  have "document_row cs d ! (3 + 2 * j) = code_values cs d ! (2 * j + 1)"
    by (simp add: document_row_def nth_append numeral_3_eq_3)
  then show "document_row cs d ! (3 + 2 * j) = CsvStr (code_excerpt (code_id (cs ! j)) d)"
    using code_values_nth(2)[OF assms] by simp
qed

lemma code_excerpt_none:
  "\<not> code_in_document cid d \<Longrightarrow> code_excerpt cid d = []"
proof -
  assume "\<not> code_in_document cid d"
  then have "find (\<lambda>c. assigned_id c = cid) (entries (codes d)) = None"
    by (auto simp: code_in_document_def find_None_iff)
  then show ?thesis by (simp add: code_excerpt_def)
qed

lemma code_excerpt_first:
  assumes "k < length (entries (codes d))"
    and "assigned_id (entries (codes d) ! k) = cid"
    and "\<forall>k'<k. assigned_id (entries (codes d) ! k') \<noteq> cid"
  shows "code_excerpt cid d = excerpt (entries (codes d) ! k)"
proof -
  have "find (\<lambda>c. assigned_id c = cid) (entries (codes d)) = Some (entries (codes d) ! k)"
    using assms by (auto simp: find_Some_iff)
  then show ?thesis by (simp add: code_excerpt_def)
qed

lemma error_document:
  "codes d = EmptyString \<Longrightarrow> code_present cid d = 0 \<and> code_excerpt cid d = []"
  by (simp add: code_present_def code_excerpt_def code_in_document_def)

lemma record_coding_error:
  "error \<noteq> None \<Longrightarrow> error \<noteq> Some [] \<Longrightarrow>
     record_coding (parsed, raw, error) d = Inr (d\<lparr>codes := EmptyString\<rparr>)"
  by (simp add: record_coding_def)

lemma tally_sorted:
  "c \<in> set (sort_codes (map (tally_code documents) cs)) \<Longrightarrow>
     tally c = length (filter (code_in_document (code_id c)) documents)"
  by (auto simp: sort_codes_def tally_code_def num_transcripts_count)

text \<open>
  C10. When the output cell completes, every code of the codebook is among the sorted
  codes with its tally, and the tally of a code is the number of documents whose assigned
  codes contain its id. The documents file has one row per document after the header; in
  the row of document \<open>i\<close> the presence column of the code at position \<open>j\<close> (column
  \<open>2 + 2j\<close>) is 1 if the id of the code is among the ids assigned to the document and 0
  otherwise, and its excerpt column (column \<open>3 + 2j\<close>) is the excerpt of the first
  assigned code with that id, or the empty string when there is none. A coding call that
  returns an error records the empty string as the codes of the document, and a document
  whose codes are the empty string has 0 and the empty string for every code.
\<close>

theorem output_cell_columns:
  assumes "output_cell cs documents = Inr (sorted_codes, rows)"
  shows "(error_text \<noteq> [] \<longrightarrow>
       record_coding (parsed, raw, Some error_text) d0 = Inr (d0\<lparr>codes := EmptyString\<rparr>))
    \<and> mset sorted_codes = image_mset (tally_code documents) (mset cs)
    \<and> (\<forall>c\<in>set sorted_codes.
          tally c = length (filter (\<lambda>d. code_id c \<in> assigned_id ` set (entries (codes d))) documents))
    \<and> length rows = Suc (length documents)
    \<and> (\<forall>i<length documents. \<forall>j<length sorted_codes.
          rows ! Suc i ! (2 + 2 * j) =
            CsvInt (if code_id (sorted_codes ! j) \<in> assigned_id ` set (entries (codes (documents ! i)))
                    then 1 else 0)
          \<and> (code_id (sorted_codes ! j) \<notin> assigned_id ` set (entries (codes (documents ! i)))
               \<longrightarrow> rows ! Suc i ! (3 + 2 * j) = CsvStr [])
          \<and> (\<forall>k<length (entries (codes (documents ! i))).
                assigned_id (entries (codes (documents ! i)) ! k) = code_id (sorted_codes ! j)
                \<and> (\<forall>k'<k. assigned_id (entries (codes (documents ! i)) ! k') \<noteq> code_id (sorted_codes ! j))
                \<longrightarrow> rows ! Suc i ! (3 + 2 * j) = CsvStr (excerpt (entries (codes (documents ! i)) ! k)))
          \<and> (codes (documents ! i) = EmptyString
               \<longrightarrow> rows ! Suc i ! (2 + 2 * j) = CsvInt 0 \<and> rows ! Suc i ! (3 + 2 * j) = CsvStr []))"
proof -
  have sc: "sorted_codes = sort_codes (map (tally_code documents) cs)"
    and rows: "rows = ([CsvStr ''file'', CsvStr ''summary''] @ code_columns sorted_codes)
                 # map (document_row sorted_codes) documents"
    using assms by (auto simp: output_cell_def Let_def split: if_splits)
  have in_doc: "code_in_document cid d \<longleftrightarrow> cid \<in> assigned_id ` set (entries (codes d))" for cid d
    by (simp add: code_in_document_def)
  have p1: "mset sorted_codes = image_mset (tally_code documents) (mset cs)"
    by (simp add: sc sort_codes_def)
  have p2: "\<forall>c\<in>set sorted_codes.
      tally c = length (filter (\<lambda>d. code_id c \<in> assigned_id ` set (entries (codes d))) documents)"
    using tally_sorted[of _ documents cs] unfolding sc in_doc by blast
  have p3: "length rows = Suc (length documents)"
    by (simp add: rows)
  have p4: "rows ! Suc i ! (2 + 2 * j) =
            CsvInt (if code_id (sorted_codes ! j) \<in> assigned_id ` set (entries (codes (documents ! i)))
                    then 1 else 0)
          \<and> (code_id (sorted_codes ! j) \<notin> assigned_id ` set (entries (codes (documents ! i)))
               \<longrightarrow> rows ! Suc i ! (3 + 2 * j) = CsvStr [])
          \<and> (\<forall>k<length (entries (codes (documents ! i))).
                assigned_id (entries (codes (documents ! i)) ! k) = code_id (sorted_codes ! j)
                \<and> (\<forall>k'<k. assigned_id (entries (codes (documents ! i)) ! k') \<noteq> code_id (sorted_codes ! j))
                \<longrightarrow> rows ! Suc i ! (3 + 2 * j) = CsvStr (excerpt (entries (codes (documents ! i)) ! k)))
          \<and> (codes (documents ! i) = EmptyString
               \<longrightarrow> rows ! Suc i ! (2 + 2 * j) = CsvInt 0 \<and> rows ! Suc i ! (3 + 2 * j) = CsvStr [])"
    if i: "i < length documents" and j: "j < length sorted_codes" for i j
  proof -
    define d where "d = documents ! i"
    define cid where "cid = code_id (sorted_codes ! j)"
    have row: "rows ! Suc i = document_row sorted_codes d"
      using i by (simp add: rows d_def)
    have present: "rows ! Suc i ! (2 + 2 * j) = CsvInt (code_present cid d)"
      unfolding row cid_def by (rule document_row_nth(1)[OF j])
    have exc: "rows ! Suc i ! (3 + 2 * j) = CsvStr (code_excerpt cid d)"
      unfolding row cid_def by (rule document_row_nth(2)[OF j])
    have a: "rows ! Suc i ! (2 + 2 * j) =
        CsvInt (if cid \<in> assigned_id ` set (entries (codes d)) then 1 else 0)"
      unfolding present by (simp add: code_present_def in_doc)
    have b: "cid \<notin> assigned_id ` set (entries (codes d)) \<longrightarrow> rows ! Suc i ! (3 + 2 * j) = CsvStr []"
      unfolding exc using code_excerpt_none[of cid d] by (simp add: in_doc)
    have c: "\<forall>k<length (entries (codes d)).
        assigned_id (entries (codes d) ! k) = cid
        \<and> (\<forall>k'<k. assigned_id (entries (codes d) ! k') \<noteq> cid)
        \<longrightarrow> rows ! Suc i ! (3 + 2 * j) = CsvStr (excerpt (entries (codes d) ! k))"
      unfolding exc using code_excerpt_first[of _ d cid] by simp
    have e: "codes d = EmptyString
        \<longrightarrow> rows ! Suc i ! (2 + 2 * j) = CsvInt 0 \<and> rows ! Suc i ! (3 + 2 * j) = CsvStr []"
      unfolding present exc using error_document[of d cid] by simp
    show ?thesis using a b c e unfolding d_def cid_def by blast
  qed
  have p0: "error_text \<noteq> [] \<longrightarrow>
       record_coding (parsed, raw, Some error_text) d0 = Inr (d0\<lparr>codes := EmptyString\<rparr>)"
    by (simp add: record_coding_error)
  show ?thesis using p0 p1 p2 p3 p4 by blast
qed

text \<open>
  The theorem at a codebook of two codes and two documents: the first document is coded
  twice with \<^verbatim>\<open>cost\<close> (the first excerpt is the one written), the coding of the second
  returned an error.
\<close>

theorem output_cell_columns_witness:
  "output_cell
     [\<lparr>code_id = ''trust'', code_label = ''Trust'', code_definition = ''d1'', code_example = ''e1''\<rparr>,
      \<lparr>code_id = ''cost'', code_label = ''Cost'', code_definition = ''d2'', code_example = ''e2''\<rparr>]
     [\<lparr>doc_file = ''t1.txt'', doc_text = ''...'', doc_summary = ''s1'',
       codes = CodeList [\<lparr>assigned_id = ''cost'', excerpt = ''too expensive''\<rparr>,
                         \<lparr>assigned_id = ''cost'', excerpt = ''pricey''\<rparr>]\<rparr>,
      \<lparr>doc_file = ''t2.txt'', doc_text = ''...'', doc_summary = ''s2'', codes = EmptyString\<rparr>]
   = Inr ([\<lparr>code_id = ''cost'', code_label = ''Cost'', code_definition = ''d2'',
             code_example = ''e2'', tally = 1\<rparr>,
           \<lparr>code_id = ''trust'', code_label = ''Trust'', code_definition = ''d1'',
             code_example = ''e1'', tally = 0\<rparr>],
          [[CsvStr ''file'', CsvStr ''summary'', CsvStr ''cost'', CsvStr ''cost_excerpt'',
            CsvStr ''trust'', CsvStr ''trust_excerpt''],
           [CsvStr ''t1.txt'', CsvStr ''s1'', CsvInt 1, CsvStr ''too expensive'', CsvInt 0, CsvStr ''''],
           [CsvStr ''t2.txt'', CsvStr ''s2'', CsvInt 0, CsvStr '''', CsvInt 0, CsvStr '''']])
   \<and> length (filter (\<lambda>d. ''cost'' \<in> assigned_id ` set (entries (codes d)))
        [\<lparr>doc_file = ''t1.txt'', doc_text = ''...'', doc_summary = ''s1'',
          codes = CodeList [\<lparr>assigned_id = ''cost'', excerpt = ''too expensive''\<rparr>,
                            \<lparr>assigned_id = ''cost'', excerpt = ''pricey''\<rparr>]\<rparr>,
         \<lparr>doc_file = ''t2.txt'', doc_text = ''...'', doc_summary = ''s2'', codes = EmptyString\<rparr>])
     = 1
   \<and> record_coding (None, [], Some ''timed out'')
        \<lparr>doc_file = ''t2.txt'', doc_text = ''...'', doc_summary = ''s2'', codes = CodeList []\<rparr>
     = Inr \<lparr>doc_file = ''t2.txt'', doc_text = ''...'', doc_summary = ''s2'', codes = EmptyString\<rparr>"
proof -
  let ?cs = "[\<lparr>code_id = ''trust'', code_label = ''Trust'', code_definition = ''d1'', code_example = ''e1''\<rparr>,
      \<lparr>code_id = ''cost'', code_label = ''Cost'', code_definition = ''d2'', code_example = ''e2''\<rparr>]"
  let ?docs = "[\<lparr>doc_file = ''t1.txt'', doc_text = ''...'', doc_summary = ''s1'',
       codes = CodeList [\<lparr>assigned_id = ''cost'', excerpt = ''too expensive''\<rparr>,
                         \<lparr>assigned_id = ''cost'', excerpt = ''pricey''\<rparr>]\<rparr>,
      \<lparr>doc_file = ''t2.txt'', doc_text = ''...'', doc_summary = ''s2'', codes = EmptyString\<rparr>]"
  let ?sorted = "[\<lparr>code_id = ''cost'', code_label = ''Cost'', code_definition = ''d2'',
             code_example = ''e2'', tally = 1\<rparr>,
           \<lparr>code_id = ''trust'', code_label = ''Trust'', code_definition = ''d1'',
             code_example = ''e1'', tally = (0::nat)\<rparr>]"
  let ?rows = "[[CsvStr ''file'', CsvStr ''summary'', CsvStr ''cost'', CsvStr ''cost_excerpt'',
            CsvStr ''trust'', CsvStr ''trust_excerpt''],
           [CsvStr ''t1.txt'', CsvStr ''s1'', CsvInt 1, CsvStr ''too expensive'', CsvInt 0, CsvStr ''''],
           [CsvStr ''t2.txt'', CsvStr ''s2'', CsvInt 0, CsvStr '''', CsvInt 0, CsvStr '''']]"
  have ev: "output_cell ?cs ?docs = Inr (?sorted, ?rows)"
    by (simp add: output_cell_def sort_codes_def tally_code_def num_transcripts_def
        code_in_document_def code_columns_def document_row_def code_values_def
        code_present_def code_excerpt_def)
  note inst = output_cell_columns[OF ev, of "''timed out''" None "[]"
      "\<lparr>doc_file = ''t2.txt'', doc_text = ''...'', doc_summary = ''s2'', codes = CodeList []\<rparr>"]
  have "\<forall>c\<in>set ?sorted.
      tally c = length (filter (\<lambda>d. code_id c \<in> assigned_id ` set (entries (codes d))) ?docs)"
    using inst by blast
  then have n: "length (filter (\<lambda>d. ''cost'' \<in> assigned_id ` set (entries (codes d))) ?docs) = 1"
    by simp
  have r: "record_coding (None, [], Some ''timed out'')
        \<lparr>doc_file = ''t2.txt'', doc_text = ''...'', doc_summary = ''s2'', codes = CodeList []\<rparr>
     = Inr \<lparr>doc_file = ''t2.txt'', doc_text = ''...'', doc_summary = ''s2'', codes = EmptyString\<rparr>"
    using inst by simp
  show ?thesis using ev n r by blast
qed

section \<open>Properties of the strategy selection\<close>



text \<open>
  C2. \<open>select\<close> follows the ladder: a PDF gives \<open>LLM_PAGE_IMAGE\<close> with an LLM and
  \<open>GENERIC_NONLLM_PARSE\<close> without; an XLSX without charts or images gives
  \<open>SPREADSHEET_STRUCTURED_PARSE\<close>; an XLSX with charts or images gives
  \<open>OFFICE_VIA_PDF_THEN_LLM\<close> when an LLM is configured and the rendered page count is at
  most 10, and \<open>GENERIC_NONLLM_PARSE\<close> otherwise; DOCX, DOC and PPTX give
  \<open>OFFICE_VIA_PDF_THEN_LLM\<close> with an LLM and \<open>GENERIC_NONLLM_PARSE\<close> without; every
  other format, an unrecognized one included, gives \<open>GENERIC_NONLLM_PARSE\<close>. The result
  is always one of these four strategies.
\<close>

theorem select_priority_ladder:
  "(format d = PDF \<and> llm_configured caps \<longrightarrow> select d caps = LLM_PAGE_IMAGE)
   \<and> (format d = PDF \<and> \<not> llm_configured caps \<longrightarrow> select d caps = GENERIC_NONLLM_PARSE)
   \<and> (format d = XLSX \<and> \<not> has_charts_or_images d \<longrightarrow>
        select d caps = SPREADSHEET_STRUCTURED_PARSE)
   \<and> (format d = XLSX \<and> has_charts_or_images d \<and> llm_configured caps \<and> page_count d \<le> 10 \<longrightarrow>
        select d caps = OFFICE_VIA_PDF_THEN_LLM)
   \<and> (format d = XLSX \<and> has_charts_or_images d \<and> \<not> (llm_configured caps \<and> page_count d \<le> 10) \<longrightarrow>
        select d caps = GENERIC_NONLLM_PARSE)
   \<and> (format d \<in> {DOCX, DOC, PPTX} \<and> llm_configured caps \<longrightarrow>
        select d caps = OFFICE_VIA_PDF_THEN_LLM)
   \<and> (format d \<in> {DOCX, DOC, PPTX} \<and> \<not> llm_configured caps \<longrightarrow>
        select d caps = GENERIC_NONLLM_PARSE)
   \<and> (format d \<notin> {PDF, XLSX, DOCX, DOC, PPTX} \<longrightarrow> select d caps = GENERIC_NONLLM_PARSE)
   \<and> select d caps \<in> {LLM_PAGE_IMAGE, GENERIC_NONLLM_PARSE, SPREADSHEET_STRUCTURED_PARSE,
        OFFICE_VIA_PDF_THEN_LLM}"
  by (auto simp: select_def)

text \<open>The ladder at one document for each of its rungs.\<close>

theorem select_priority_ladder_witness:
  "select \<lparr>path = ''a.pdf'', format = PDF, page_count = 3, estimated_tokens = 1200,
            has_charts_or_images = False, size_bytes = 4096\<rparr>
          \<lparr>llm_configured = True, renderer_available = True\<rparr> = LLM_PAGE_IMAGE
   \<and> select \<lparr>path = ''a.pdf'', format = PDF, page_count = 3, estimated_tokens = 1200,
            has_charts_or_images = False, size_bytes = 4096\<rparr>
          \<lparr>llm_configured = False, renderer_available = True\<rparr> = GENERIC_NONLLM_PARSE
   \<and> select \<lparr>path = ''t.xlsx'', format = XLSX, page_count = 1, estimated_tokens = 900,
            has_charts_or_images = False, size_bytes = 2048\<rparr>
          \<lparr>llm_configured = True, renderer_available = True\<rparr> = SPREADSHEET_STRUCTURED_PARSE
   \<and> select \<lparr>path = ''c.xlsx'', format = XLSX, page_count = 10, estimated_tokens = 900,
            has_charts_or_images = True, size_bytes = 2048\<rparr>
          \<lparr>llm_configured = True, renderer_available = True\<rparr> = OFFICE_VIA_PDF_THEN_LLM
   \<and> select \<lparr>path = ''c.xlsx'', format = XLSX, page_count = 11, estimated_tokens = 900,
            has_charts_or_images = True, size_bytes = 2048\<rparr>
          \<lparr>llm_configured = True, renderer_available = True\<rparr> = GENERIC_NONLLM_PARSE
   \<and> select \<lparr>path = ''r.docx'', format = DOCX, page_count = 40, estimated_tokens = 9000,
            has_charts_or_images = True, size_bytes = 2048\<rparr>
          \<lparr>llm_configured = True, renderer_available = True\<rparr> = OFFICE_VIA_PDF_THEN_LLM
   \<and> select \<lparr>path = ''r.pptx'', format = PPTX, page_count = 40, estimated_tokens = 9000,
            has_charts_or_images = True, size_bytes = 2048\<rparr>
          \<lparr>llm_configured = False, renderer_available = True\<rparr> = GENERIC_NONLLM_PARSE
   \<and> select \<lparr>path = ''x.bin'', format = Unrecognized, page_count = 0, estimated_tokens = 0,
            has_charts_or_images = False, size_bytes = 7\<rparr>
          \<lparr>llm_configured = True, renderer_available = False\<rparr> = GENERIC_NONLLM_PARSE"
  using
    select_priority_ladder[of "\<lparr>path = ''a.pdf'', format = PDF, page_count = 3,
      estimated_tokens = 1200, has_charts_or_images = False, size_bytes = 4096\<rparr>"
      "\<lparr>llm_configured = True, renderer_available = True\<rparr>"]
    select_priority_ladder[of "\<lparr>path = ''a.pdf'', format = PDF, page_count = 3,
      estimated_tokens = 1200, has_charts_or_images = False, size_bytes = 4096\<rparr>"
      "\<lparr>llm_configured = False, renderer_available = True\<rparr>"]
    select_priority_ladder[of "\<lparr>path = ''t.xlsx'', format = XLSX, page_count = 1,
      estimated_tokens = 900, has_charts_or_images = False, size_bytes = 2048\<rparr>"
      "\<lparr>llm_configured = True, renderer_available = True\<rparr>"]
    select_priority_ladder[of "\<lparr>path = ''c.xlsx'', format = XLSX, page_count = 10,
      estimated_tokens = 900, has_charts_or_images = True, size_bytes = 2048\<rparr>"
      "\<lparr>llm_configured = True, renderer_available = True\<rparr>"]
    select_priority_ladder[of "\<lparr>path = ''c.xlsx'', format = XLSX, page_count = 11,
      estimated_tokens = 900, has_charts_or_images = True, size_bytes = 2048\<rparr>"
      "\<lparr>llm_configured = True, renderer_available = True\<rparr>"]
    select_priority_ladder[of "\<lparr>path = ''r.docx'', format = DOCX, page_count = 40,
      estimated_tokens = 9000, has_charts_or_images = True, size_bytes = 2048\<rparr>"
      "\<lparr>llm_configured = True, renderer_available = True\<rparr>"]
    select_priority_ladder[of "\<lparr>path = ''r.pptx'', format = PPTX, page_count = 40,
      estimated_tokens = 9000, has_charts_or_images = True, size_bytes = 2048\<rparr>"
      "\<lparr>llm_configured = False, renderer_available = True\<rparr>"]
    select_priority_ladder[of "\<lparr>path = ''x.bin'', format = Unrecognized, page_count = 0,
      estimated_tokens = 0, has_charts_or_images = False, size_bytes = 7\<rparr>"
      "\<lparr>llm_configured = True, renderer_available = False\<rparr>"]
  by simp




end
